theory Spec2Isabelle
  imports Complex_Main
begin

section \<open>Strings\<close>

text \<open>
  A Python string is modelled as a \<open>string\<close> whose characters are the code points 0..255.
  On these, \<open>str.isspace\<close> holds for 9..13, 28..32, U+0085 and U+00A0, and this is the
  whitespace \<open>str.strip\<close> removes at both ends. \<open>str.upper\<close> maps a..z and the letters
  U+00E0..U+00FE but U+00F7 to the code point 32 below, and U+00DF to the two letters SS.
  It maps U+00B5 and U+00FF to code points above 255, which this type does not hold: the
  model leaves them as they are, and \<open>upper_representable\<close> names the strings without
  them, on which the model is \<open>str.upper\<close>.
\<close>

definition upper_char :: "char \<Rightarrow> string" where
  "upper_char c =
     (let n = (of_char c :: nat) in
      if (97 \<le> n \<and> n \<le> 122) \<or> (224 \<le> n \<and> n \<le> 254 \<and> n \<noteq> 247)
      then [char_of (n - 32)]
      else if n = 223 then ''SS''
      else [c])"

definition upper :: "string \<Rightarrow> string" where
  "upper s = concat (map upper_char s)"

definition upper_representable :: "string \<Rightarrow> bool" where
  "upper_representable s \<longleftrightarrow> (\<forall>c \<in> set s. (of_char c :: nat) \<noteq> 181 \<and> (of_char c :: nat) \<noteq> 255)"

definition is_space :: "char \<Rightarrow> bool" where
  "is_space c =
     (let n = (of_char c :: nat)
      in (9 \<le> n \<and> n \<le> 13) \<or> (28 \<le> n \<and> n \<le> 32) \<or> n = 133 \<or> n = 160)"

definition strip :: "string \<Rightarrow> string" where
  "strip s = rev (dropWhile is_space (rev (dropWhile is_space s)))"

section \<open>Numbers\<close>

text \<open>
  Python floats that take part in sizing are modelled by the rational number the double
  denotes. The literal \<open>9.6\<close> is the double \<open>5404319552844595 / 2 ^ 49\<close>, which is a
  little less than \<open>48 / 5\<close>; \<open>0.5\<close> and \<open>1.5\<close> are exact doubles. An \<open>int\<close> of
  magnitude below \<open>2 ^ 53\<close> converts to a double exactly, and on such values floor
  division and the products with \<open>0.5\<close> and \<open>1.5\<close> are exact as well.
\<close>

definition float_9_6 :: rat where
  "float_9_6 = 5404319552844595 / 562949953421312"

definition py_floordiv :: "rat \<Rightarrow> rat \<Rightarrow> rat" where
  \<comment> \<open>\<open>x // y\<close> on floats: the floor of the quotient, as a float\<close>
  "py_floordiv x y = of_int \<lfloor>x / y\<rfloor>"

definition py_int :: "rat \<Rightarrow> int" where
  \<comment> \<open>\<open>int(x)\<close> on a float truncates towards zero\<close>
  "py_int x = (if x < 0 then \<lceil>x\<rceil> else \<lfloor>x\<rfloor>)"

section \<open>Data\<close>

text \<open>
  Timestamps are the recogniser's floats. The code only copies and subtracts them, so
  their type is left open: \<open>'t\<close> with its own subtraction.
\<close>

record 't whisper_word =
  ww_word :: string
  ww_start :: 't
  ww_end :: 't

record 't whisper_segment =
  seg_text :: string
  seg_words :: "'t whisper_word list option"  \<comment> \<open>\<open>None\<close>: the segment has no key "words"\<close>

record 't whisper_result =
  res_text :: string
  res_segments :: "'t whisper_segment list"

record 't word_data =
  wd_text :: string
  wd_start :: 't
  wd_end :: 't

type_synonym rgba = "nat \<times> nat \<times> nat \<times> nat"

record draw_text =
  dt_xy :: "int \<times> int"
  dt_text :: string
  dt_fill :: rgba

text \<open>
  An image is the transparent RGBA canvas of its size together with the \<open>draw.text\<close>
  calls made on it, in the order they are made.
\<close>

record text_image =
  img_size :: "int \<times> int"
  img_draws :: "draw_text list"

text \<open>
  A clip carries its image, its time window, its position and the effects applied to it.
\<close>

datatype clip_effect = CrossFadeIn rat | CrossFadeOut rat

record 't image_clip =
  clip_img :: text_image
  clip_start :: 't
  clip_duration :: 't
  clip_pos :: "int \<times> int"
  clip_fx :: "clip_effect list"

datatype exn = FileNotFoundError | OtherException string

section \<open>transcribe_with_word_timestamps\<close>

definition append_word :: "'t word_data list \<Rightarrow> 't whisper_word \<Rightarrow> 't word_data list" where
  "append_word word_segments word =
     word_segments @
       [\<lparr>wd_text = strip (ww_word word), wd_start = ww_start word, wd_end = ww_end word\<rparr>]"

definition collect_words :: "'t whisper_result \<Rightarrow> 't word_data list" where
  "collect_words result =
     foldl (\<lambda>word_segments segment.
              case seg_words segment of
                None \<Rightarrow> word_segments
              | Some ws \<Rightarrow> foldl append_word word_segments ws)
       [] (res_segments result)"

text \<open>
  The recogniser (loading the model and transcribing the file) is a parameter; it either
  raises or returns its result.
\<close>

definition transcribe_with_word_timestamps ::
  "(string \<Rightarrow> exn + 't whisper_result) \<Rightarrow> string \<Rightarrow> exn + 't word_data list" where
  "transcribe_with_word_timestamps whisper video_path =
     (case whisper video_path of
        Inl e \<Rightarrow> Inl e
      | Inr result \<Rightarrow> Inr (collect_words result))"

section \<open>create_text_image\<close>

text \<open>
  The font and its metrics belong to the rasteriser: \<open>textbbox text font_size\<close> stands for
  \<open>draw.textbbox((0, 0), text, font=font)\<close> with the font loaded at \<open>font_size\<close>.
\<close>

type_synonym bbox = "int \<times> int \<times> int \<times> int"

definition stroke_width :: int where
  "stroke_width = 4"

definition draw_stroke :: "int \<Rightarrow> int \<Rightarrow> string \<Rightarrow> draw_text list \<Rightarrow> draw_text list" where
  "draw_stroke x y txt draws =
     fold (\<lambda>dx draws.
             fold (\<lambda>dy draws.
                     if dx \<noteq> 0 \<or> dy \<noteq> 0
                     then draws @ [\<lparr>dt_xy = (x + dx, y + dy), dt_text = txt, dt_fill = (0, 0, 0, 255)\<rparr>]
                     else draws)
               [- stroke_width..stroke_width] draws)
       [- stroke_width..stroke_width] draws"

definition create_text_image ::
  "(string \<Rightarrow> int \<Rightarrow> bbox) \<Rightarrow> string \<Rightarrow> int \<Rightarrow> int \<Rightarrow> int \<Rightarrow> bool \<Rightarrow> text_image" where
  "create_text_image textbbox txt font_size width height is_highlight =
     (let txt = upper txt;
          (b0, b1, b2, b3) = textbbox txt font_size;
          text_width = b2 - b0;
          text_height = b3 - b1;
          x = (width - text_width) div 2;
          y = (height - text_height) div 2;
          draws = draw_stroke x y txt [];
          text_color = (if is_highlight then (255, 255, 0, 255) else (250, 253, 7, 255));
          draws = draws @ [\<lparr>dt_xy = (x, y), dt_text = txt, dt_fill = text_color\<rparr>]
      in \<lparr>img_size = (width, height), img_draws = draws\<rparr>)"

section \<open>create_word_caption_clips\<close>

definition words_per_line :: nat where
  "words_per_line = 2"

definition font_size_of :: "int \<Rightarrow> int" where
  \<comment> \<open>\<open>font_size = min(int(width // 9.6), 125)\<close>\<close>
  "font_size_of width = min (py_int (py_floordiv (of_int width) float_9_6)) 125"

definition caption_y_of :: "int \<Rightarrow> int" where
  \<comment> \<open>\<open>caption_y = int(height * 0.5)\<close>\<close>
  "caption_y_of height = py_int (of_int height * 0.5)"

definition group_step ::
  "nat \<Rightarrow> 'a list list \<times> 'a list \<Rightarrow> nat \<times> 'a \<Rightarrow> 'a list list \<times> 'a list" where
  "group_step n st iw =
     (case st of (lines, current_line) \<Rightarrow>
      case iw of (i, word_data) \<Rightarrow>
        (let current_line = current_line @ [word_data]
         in if length current_line \<ge> words_per_line \<or> int i = int n - 1
            then (lines @ [current_line], [])
            else (lines, current_line)))"

definition group_lines :: "'a list \<Rightarrow> 'a list list \<times> 'a list" where
  "group_lines transcript_segments =
     foldl (group_step (length transcript_segments)) ([], []) (enumerate 0 transcript_segments)"

definition is_highlight :: "string list \<Rightarrow> 't word_data \<Rightarrow> bool" where
  \<comment> \<open>\<open>word_data["text"].upper().strip() in highlight_words\<close>\<close>
  "is_highlight highlight_words word_data \<longleftrightarrow>
     strip (upper (wd_text word_data)) \<in> set highlight_words"

definition word_clip ::
  "(string \<Rightarrow> int \<Rightarrow> bbox) \<Rightarrow> int \<Rightarrow> int \<Rightarrow> int \<Rightarrow> string list \<Rightarrow> ('t::minus) word_data
     \<Rightarrow> 't image_clip" where
  "word_clip textbbox font_size width caption_y highlight_words word_data =
     (let text_img = create_text_image textbbox (wd_text word_data) font_size width
                       (py_int (of_int font_size * 1.5))
                       (is_highlight highlight_words word_data)
      in \<lparr>clip_img = text_img,
          clip_start = wd_start word_data,
          clip_duration = wd_end word_data - wd_start word_data,
          clip_pos = (0, caption_y),
          clip_fx = [CrossFadeIn 0.1]\<rparr>)"

record 't layout_locals =
  ll_caption_clips :: "'t image_clip list"
  ll_lines :: "'t word_data list list"
  ll_current_line :: "'t word_data list"

definition create_word_caption_clips_locals ::
  "(string \<Rightarrow> int \<Rightarrow> bbox) \<Rightarrow> ('t::minus) word_data list \<Rightarrow> int \<times> int \<Rightarrow> string list option
     \<Rightarrow> 't layout_locals" where
  "create_word_caption_clips_locals textbbox transcript_segments video_size highlight_words =
     (let (width, height) = video_size;
          font_size = font_size_of width;
          caption_y = caption_y_of height;
          highlight_words = (case highlight_words of None \<Rightarrow> [] | Some hw \<Rightarrow> hw);
          highlight_words = map upper highlight_words;
          (lines, current_line) = group_lines transcript_segments;
          caption_clips =
            foldl (\<lambda>caption_clips word_data.
                     caption_clips @
                       [word_clip textbbox font_size width caption_y highlight_words word_data])
              [] transcript_segments
      in \<lparr>ll_caption_clips = caption_clips, ll_lines = lines, ll_current_line = current_line\<rparr>)"

definition create_word_caption_clips ::
  "(string \<Rightarrow> int \<Rightarrow> bbox) \<Rightarrow> ('t::minus) word_data list \<Rightarrow> int \<times> int \<Rightarrow> string list option
     \<Rightarrow> 't image_clip list" where
  "create_word_caption_clips textbbox transcript_segments video_size highlight_words =
     ll_caption_clips
       (create_word_caption_clips_locals textbbox transcript_segments video_size highlight_words)"

text \<open>The layout as the specification reads it once the grouping step is removed.\<close>

definition layout_without_grouping ::
  "(string \<Rightarrow> int \<Rightarrow> bbox) \<Rightarrow> ('t::minus) word_data list \<Rightarrow> int \<times> int \<Rightarrow> string list option
     \<Rightarrow> 't image_clip list" where
  "layout_without_grouping textbbox transcript_segments video_size highlight_words =
     (let (width, height) = video_size;
          font_size = font_size_of width;
          caption_y = caption_y_of height;
          highlight_words = (case highlight_words of None \<Rightarrow> [] | Some hw \<Rightarrow> hw);
          highlight_words = map upper highlight_words
      in foldl (\<lambda>caption_clips word_data.
                  caption_clips @
                    [word_clip textbbox font_size width caption_y highlight_words word_data])
           [] transcript_segments)"

text \<open>Lines of two consecutive words, the last one possibly of a single word.\<close>

fun lines_of_two :: "'a list \<Rightarrow> 'a list list" where
  "lines_of_two [] = []"
| "lines_of_two [x] = [[x]]"
| "lines_of_two (x # y # zs) = [x, y] # lines_of_two zs"

text \<open>The fill colour of an image is the colour of the last text drawn on it.\<close>

definition fill_color :: "text_image \<Rightarrow> rgba" where
  "fill_color img = dt_fill (last (img_draws img))"

definition padded :: "string \<Rightarrow> bool" where
  \<comment> \<open>the string starts or ends with whitespace\<close>
  "padded s \<longleftrightarrow> s \<noteq> [] \<and> (is_space (hd s) \<or> is_space (last s))"

section \<open>main\<close>

text \<open>
  \<open>main\<close> runs four stages inside one \<open>try\<close>: transcription, reading the video's size,
  building the clips and composing. Each stage either raises or returns. What \<open>main\<close>
  itself prints and the status the process ends with are its result: \<open>main\<close> returns
  after either \<open>except\<close> clause, and the script ends there.
\<close>

record ('w, 'c) stages =
  st_transcribe :: "string \<Rightarrow> exn + 'w list"
  st_video_size :: "string \<Rightarrow> exn + int \<times> int"
  st_create_clips :: "'w list \<Rightarrow> int \<times> int \<Rightarrow> string list option \<Rightarrow> exn + 'c list"
  st_compose :: "string \<Rightarrow> 'c list \<Rightarrow> string \<Rightarrow> exn + unit"

record run =
  printed :: "string list"
  exit_status :: int

definition input_video :: string where
  "input_video = ''stitched_output.mp4''"

definition output_video :: string where
  "output_video = ''captioned_output.mp4''"

definition main_highlight_words :: "string list" where
  "main_highlight_words =
     [''amazing'', ''incredible'', ''wow'', ''perfect'', ''awesome'', ''fantastic'']"

definition main_try :: "('w, 'c) stages \<Rightarrow> exn + string list" where
  "main_try S =
     (case st_transcribe S input_video of
        Inl e \<Rightarrow> Inl e
      | Inr word_segments \<Rightarrow>
     (case st_video_size S input_video of
        Inl e \<Rightarrow> Inl e
      | Inr video_size \<Rightarrow>
     (case st_create_clips S word_segments video_size (Some main_highlight_words) of
        Inl e \<Rightarrow> Inl e
      | Inr caption_clips \<Rightarrow>
     (case st_compose S input_video caption_clips output_video of
        Inl e \<Rightarrow> Inl e
      | Inr _ \<Rightarrow> Inr [''Successfully created captioned video: '' @ output_video]))))"

definition error_line :: "exn \<Rightarrow> string" where
  "error_line e =
     (case e of
        FileNotFoundError \<Rightarrow>
          ''Error: Input video '' @ [CHR 0x27] @ input_video @ [CHR 0x27] @ '' not found!''
      | OtherException msg \<Rightarrow> ''Error: '' @ msg)"

definition main :: "('w, 'c) stages \<Rightarrow> run" where
  "main S =
     (case main_try S of
        Inr out \<Rightarrow> \<lparr>printed = out, exit_status = 0\<rparr>
      | Inl e \<Rightarrow> \<lparr>printed = [error_line e], exit_status = 0\<rparr>)"

text \<open>The stages of the program itself, over its external collaborators.\<close>

definition program_stages ::
  "(string \<Rightarrow> exn + 't whisper_result) \<Rightarrow> (string \<Rightarrow> exn + int \<times> int) \<Rightarrow> (string \<Rightarrow> int \<Rightarrow> bbox)
     \<Rightarrow> (string \<Rightarrow> 't image_clip list \<Rightarrow> string \<Rightarrow> exn + unit)
     \<Rightarrow> (('t::minus) word_data, 't image_clip) stages" where
  "program_stages whisper video_file_clip textbbox compose_final_video_with_captions =
     \<lparr>st_transcribe = transcribe_with_word_timestamps whisper,
      st_video_size = video_file_clip,
      st_create_clips = (\<lambda>word_segments video_size highlight_words.
         Inr (create_word_caption_clips textbbox word_segments video_size highlight_words)),
      st_compose = compose_final_video_with_captions\<rparr>"

text \<open>Sample inputs for concrete evaluations.\<close>

definition sample_textbbox :: "string \<Rightarrow> int \<Rightarrow> bbox" where
  "sample_textbbox txt font_size = (0, 0, int (length txt) * font_size, font_size)"

definition sample_word :: "string \<Rightarrow> rat \<Rightarrow> rat \<Rightarrow> rat word_data" where
  "sample_word txt s e = \<lparr>wd_text = txt, wd_start = s, wd_end = e\<rparr>"

definition sample_result :: "rat whisper_result" where
  "sample_result =
     \<lparr>res_text = '' hello world'',
      res_segments =
        [\<lparr>seg_text = '' hello world'',
          seg_words = Some [\<lparr>ww_word = '' hello'', ww_start = 0, ww_end = 0.5\<rparr>,
                            \<lparr>ww_word = '' world '', ww_start = 0.5, ww_end = 1.2\<rparr>]\<rparr>,
         \<lparr>seg_text = ''[music]'', seg_words = None\<rparr>,
         \<lparr>seg_text = '''', seg_words = Some []\<rparr>,
         \<lparr>seg_text = ''hi'',
          seg_words = Some [\<lparr>ww_word = CHR 0xA0 # ''hi'' @ [CHR 0x85],
                             ww_start = 1.2, ww_end = 1.5\<rparr>]\<rparr>]\<rparr>"

definition sample_whisper :: "string \<Rightarrow> exn + rat whisper_result" where
  "sample_whisper video_path = Inr sample_result"

definition sample_failing_whisper :: "string \<Rightarrow> exn + rat whisper_result" where
  "sample_failing_whisper video_path = Inl (OtherException ''Failed to load audio'')"

definition sample_missing_whisper :: "string \<Rightarrow> exn + rat whisper_result" where
  "sample_missing_whisper video_path = Inl FileNotFoundError"

definition sample_video_file_clip :: "string \<Rightarrow> exn + int \<times> int" where
  "sample_video_file_clip video_path = Inr (1080, 1920)"

definition sample_compose :: "string \<Rightarrow> rat image_clip list \<Rightarrow> string \<Rightarrow> exn + unit" where
  "sample_compose video_path caption_clips output_path = Inr ()"

definition sample_failing_compose :: "string \<Rightarrow> rat image_clip list \<Rightarrow> string \<Rightarrow> exn + unit" where
  "sample_failing_compose video_path caption_clips output_path =
     Inl (OtherException ''No space left on device'')"

text \<open>The offsets of the outline, in the order the two loops visit them.\<close>

definition stroke_offsets :: "(int \<times> int) list" where
  "stroke_offsets =
     filter (\<lambda>(dx, dy). dx \<noteq> 0 \<or> dy \<noteq> 0)
       (List.product [- stroke_width..stroke_width] [- stroke_width..stroke_width])"

section \<open>Properties of the layout\<close>

lemma foldl_snoc_map: "foldl (\<lambda>acc x. acc @ [f x]) acc xs = acc @ map f xs"
  by (induction xs arbitrary: acc) simp_all

lemma create_word_caption_clips_map:
  "create_word_caption_clips tb ws (w, h) hw =
     map (word_clip tb (font_size_of w) w (caption_y_of h)
            (map upper (case hw of None \<Rightarrow> [] | Some x \<Rightarrow> x))) ws"
  by (simp add: create_word_caption_clips_def create_word_caption_clips_locals_def
      Let_def foldl_snoc_map split: prod.splits)

lemma clip_start_word_clip [simp]: "clip_start (word_clip tb fs w y hs wd) = wd_start wd"
  by (simp add: word_clip_def Let_def)

lemma clip_duration_word_clip [simp]:
  "clip_duration (word_clip tb fs w y hs wd) = wd_end wd - wd_start wd"
  by (simp add: word_clip_def Let_def)

lemma clip_fx_word_clip [simp]: "clip_fx (word_clip tb fs w y hs wd) = [CrossFadeIn 0.1]"
  by (simp add: word_clip_def Let_def)

lemma clip_pos_word_clip [simp]: "clip_pos (word_clip tb fs w y hs wd) = (0, y)"
  by (simp add: word_clip_def Let_def)

text \<open>
  C2. When every word has \<open>end > start\<close>, the layout returns one clip per word, in the
  order of the words: the clip at index \<open>i\<close> starts at the start of word \<open>i\<close>, lasts
  \<open>end - start\<close> of that word, and carries the single effect of a fade-in of 0.1 (so no
  fade-out).
\<close>

theorem layout_one_clip_per_word:
  fixes ws :: "('t::{minus,ord}) word_data list"
  assumes "\<forall>w\<in>set ws. wd_start w < wd_end w"
  shows "length (create_word_caption_clips tb ws sz hw) = length ws \<and>
         (\<forall>i<length ws.
            clip_start (create_word_caption_clips tb ws sz hw ! i) = wd_start (ws ! i) \<and>
            clip_duration (create_word_caption_clips tb ws sz hw ! i)
              = wd_end (ws ! i) - wd_start (ws ! i) \<and>
            clip_fx (create_word_caption_clips tb ws sz hw ! i) = [CrossFadeIn 0.1])"
  by (cases sz) (simp add: create_word_caption_clips_map)

theorem layout_one_clip_per_word_witness:
  "wd_start (sample_word ''hello'' 0 0.5) < wd_end (sample_word ''hello'' 0 0.5) \<and>
   wd_start (sample_word ''world'' 0.5 1.2) < wd_end (sample_word ''world'' 0.5 1.2) \<and>
   length (create_word_caption_clips sample_textbbox
             [sample_word ''hello'' 0 0.5, sample_word ''world'' 0.5 1.2] (1080, 1920)
             (Some [''world''])) = 2 \<and>
   clip_start (create_word_caption_clips sample_textbbox
             [sample_word ''hello'' 0 0.5, sample_word ''world'' 0.5 1.2] (1080, 1920)
             (Some [''world'']) ! 1) = 0.5 \<and>
   clip_duration (create_word_caption_clips sample_textbbox
             [sample_word ''hello'' 0 0.5, sample_word ''world'' 0.5 1.2] (1080, 1920)
             (Some [''world'']) ! 1) = 0.7 \<and>
   clip_fx (create_word_caption_clips sample_textbbox
             [sample_word ''hello'' 0 0.5, sample_word ''world'' 0.5 1.2] (1080, 1920)
             (Some [''world'']) ! 1) = [CrossFadeIn 0.1]"
proof -
  let ?ws = "[sample_word ''hello'' 0 0.5, sample_word ''world'' 0.5 1.2]"
  let ?cs = "create_word_caption_clips sample_textbbox ?ws (1080, 1920) (Some [''world''])"
  have h1: "wd_start (sample_word ''hello'' 0 0.5) < wd_end (sample_word ''hello'' 0 0.5)"
    and h2: "wd_start (sample_word ''world'' 0.5 1.2) < wd_end (sample_word ''world'' 0.5 1.2)"
    by (simp_all add: sample_word_def)
  then have h: "\<forall>w\<in>set ?ws. wd_start w < wd_end w"
    by simp
  note inst = layout_one_clip_per_word [OF h, of sample_textbbox "(1080, 1920)" "Some [''world'']"]
  from inst have len: "length ?cs = length ?ws" ..
  from inst have "\<forall>i<length ?ws. clip_start (?cs ! i) = wd_start (?ws ! i) \<and>
      clip_duration (?cs ! i) = wd_end (?ws ! i) - wd_start (?ws ! i) \<and>
      clip_fx (?cs ! i) = [CrossFadeIn 0.1]" ..
  moreover have "1 < length ?ws" by simp
  ultimately have "clip_start (?cs ! 1) = wd_start (?ws ! 1) \<and>
      clip_duration (?cs ! 1) = wd_end (?ws ! 1) - wd_start (?ws ! 1) \<and>
      clip_fx (?cs ! 1) = [CrossFadeIn 0.1]" by blast
  then have "clip_start (?cs ! 1) = 0.5 \<and> clip_duration (?cs ! 1) = 0.7 \<and>
      clip_fx (?cs ! 1) = [CrossFadeIn 0.1]"
    by (simp add: sample_word_def)
  with h1 h2 len show ?thesis by simp
qed

section \<open>Sizing and position\<close>

lemma py_int_of_int: "py_int (of_int k) = k"
  by (simp add: py_int_def)

lemma py_int_nonneg: "0 \<le> x \<Longrightarrow> py_int x = \<lfloor>x\<rfloor>"
  by (simp add: py_int_def)

lemma font_size_of_div:
  "font_size_of w = min (w * 562949953421312 div 5404319552844595) 125"
proof -
  have "of_int w / float_9_6 = (of_int (w * 562949953421312) / of_int 5404319552844595 :: rat)"
    by (simp add: float_9_6_def)
  then have "\<lfloor>of_int w / float_9_6\<rfloor> = w * 562949953421312 div 5404319552844595"
    by (simp only: floor_divide_of_int_eq)
  then show ?thesis
    by (simp add: font_size_of_def py_floordiv_def py_int_of_int)
qed

lemma floor_div_9_6: "\<lfloor>of_int w / (9.6::rat)\<rfloor> = 5 * w div 48"
proof -
  have "of_int w / (9.6::rat) = of_int (5 * w) / of_int 48"
    by simp
  then show ?thesis
    by (simp only: floor_divide_of_int_eq)
qed

lemma double_quotient_small:
  assumes "0 \<le> (w::int)" and "w < 1200"
  shows "w * 562949953421312 div 5404319552844595 = 5 * w div 48"
proof -
  define k where "k = 5 * w div 48"
  have k: "48 * k \<le> 5 * w" "5 * w \<le> 48 * k + 47"
    unfolding k_def by presburger+
  with assms have kb: "0 \<le> k" "k \<le> 124"
    by linarith+
  define r where "r = w * 562949953421312 - 5404319552844595 * k"
  have "w * 562949953421312 = 5404319552844595 * k + r"
    by (simp add: r_def)
  moreover have "0 \<le> r"
    unfolding r_def using k kb by linarith
  moreover have "r < 5404319552844595"
    unfolding r_def using k kb by linarith
  ultimately have "w * 562949953421312 div 5404319552844595 = k"
    by (rule int_div_pos_eq)
  then show ?thesis
    by (simp add: k_def)
qed

lemma double_quotient_large:
  assumes "1200 \<le> (w::int)"
  shows "125 \<le> w * 562949953421312 div 5404319552844595" and "125 \<le> 5 * w div 48"
proof -
  have "(1200 * 562949953421312) div 5404319552844595 \<le> w * 562949953421312 div 5404319552844595"
    using assms by (intro zdiv_mono1) simp_all
  then show "125 \<le> w * 562949953421312 div 5404319552844595"
    by simp
  have "(6000::int) div 48 \<le> 5 * w div 48"
    using assms by (intro zdiv_mono1) simp_all
  then show "125 \<le> 5 * w div 48"
    by simp
qed

lemma double_quotient_agrees:
  assumes "0 \<le> (w::int)"
  shows "min (w * 562949953421312 div 5404319552844595) 125 = min (5 * w div 48) 125"
proof (cases "w < 1200")
  case True
  with assms show ?thesis
    by (simp only: double_quotient_small)
next
  case False
  then have "1200 \<le> w" by simp
  from double_quotient_large [OF this] show ?thesis
    by simp
qed


lemma font_size_of_nonneg: "0 \<le> w \<Longrightarrow> 0 \<le> font_size_of w"
  by (simp add: font_size_of_div pos_imp_zdiv_nonneg_iff)

lemma img_size_word_clip [simp]:
  "img_size (clip_img (word_clip tb fs w y hs wd)) = (w, py_int (of_int fs * 1.5))"
  by (simp add: word_clip_def create_text_image_def Let_def split: prod.splits)

text \<open>
  C5. For a video width from 0 up to the largest int a double holds exactly, the font size
  is \<open>min (floor (width / 9.6)) 125\<close>, with the exact 9.6 and not only its double; width
  1080 gives 112; and the image of every clip is as wide as the video and
  \<open>floor (font size * 1.5)\<close> high.
\<close>

theorem font_size_and_canvas:
  assumes "0 \<le> width" and "width < 2 ^ 53"
  shows "font_size_of width = min \<lfloor>of_int width / (9.6::rat)\<rfloor> 125 \<and>
         font_size_of 1080 = 112 \<and>
         (\<forall>c\<in>set (create_word_caption_clips tb ws (width, height) hw).
            img_size (clip_img c) = (width, \<lfloor>of_int (font_size_of width) * (1.5::rat)\<rfloor>))"
proof (intro conjI)
  show "font_size_of width = min \<lfloor>of_int width / (9.6::rat)\<rfloor> 125"
    using assms(1) by (simp only: font_size_of_div floor_div_9_6 double_quotient_agrees)
  show "font_size_of 1080 = 112"
    by (simp add: font_size_of_div)
  have "0 \<le> (of_int (font_size_of width) * 1.5 :: rat)"
    using font_size_of_nonneg [OF assms(1)] by simp
  then have "py_int (of_int (font_size_of width) * 1.5) = \<lfloor>of_int (font_size_of width) * (1.5::rat)\<rfloor>"
    by (rule py_int_nonneg)
  then show "\<forall>c\<in>set (create_word_caption_clips tb ws (width, height) hw).
            img_size (clip_img c) = (width, \<lfloor>of_int (font_size_of width) * (1.5::rat)\<rfloor>)"
    by (auto simp: create_word_caption_clips_map)
qed

theorem font_size_and_canvas_witness:
  "(0::int) \<le> 1080 \<and> (1080::int) < 2 ^ 53 \<and> font_size_of 1080 = 112 \<and>
   img_size (clip_img (create_word_caption_clips sample_textbbox
      [sample_word ''hello'' 0 0.5] (1080, 1920) None ! 0)) = (1080, 168)"
proof -
  let ?cs = "create_word_caption_clips sample_textbbox [sample_word ''hello'' 0 0.5] (1080, 1920) None"
  have h1: "(0::int) \<le> 1080" and h2: "(1080::int) < 2 ^ 53" by simp_all
  note inst = font_size_and_canvas [OF h1 h2, of sample_textbbox "[sample_word ''hello'' 0 0.5]" 1920 None]
  from inst have fs: "font_size_of 1080 = 112" by blast
  from inst have "\<forall>c\<in>set ?cs. img_size (clip_img c) = (1080, \<lfloor>of_int (font_size_of 1080) * (1.5::rat)\<rfloor>)"
    by blast
  moreover have "?cs ! 0 \<in> set ?cs"
    by (simp add: create_word_caption_clips_map)
  ultimately have "img_size (clip_img (?cs ! 0)) = (1080, \<lfloor>of_int (font_size_of 1080) * (1.5::rat)\<rfloor>)"
    by blast
  moreover have "\<lfloor>of_int (font_size_of 1080) * (1.5::rat)\<rfloor> = 168"
    by (simp add: fs)
  ultimately have "img_size (clip_img (?cs ! 0)) = (1080, 168)"
    by simp
  with fs show ?thesis by simp
qed

text \<open>
  C7. For a video height from 0 up to the largest int a double holds exactly, every clip
  is placed at \<open>x = 0\<close>, \<open>y = floor (height * 0.5)\<close>, whatever the words and the
  highlight list are; for height 1920 every clip has \<open>y = 960\<close>.
\<close>

theorem caption_position:
  assumes "0 \<le> height" and "height < 2 ^ 53"
  shows "(\<forall>c\<in>set (create_word_caption_clips tb ws (width, height) hw).
            clip_pos c = (0, \<lfloor>of_int height * (0.5::rat)\<rfloor>)) \<and>
         (\<forall>c\<in>set (create_word_caption_clips tb ws (width, 1920) hw). clip_pos c = (0, 960))"
proof -
  have "0 \<le> (of_int height * 0.5 :: rat)"
    using assms(1) by simp
  then have "caption_y_of height = \<lfloor>of_int height * (0.5::rat)\<rfloor>"
    unfolding caption_y_of_def by (rule py_int_nonneg)
  moreover have "caption_y_of 1920 = 960"
    by (simp add: caption_y_of_def py_int_def)
  ultimately show ?thesis
    by (auto simp: create_word_caption_clips_map)
qed

theorem caption_position_witness:
  "(0::int) \<le> 1920 \<and> (1920::int) < 2 ^ 53 \<and>
   clip_pos (create_word_caption_clips sample_textbbox
      [sample_word ''hello'' 0 0.5, sample_word ''world'' 0.5 1.2] (1080, 1920)
      (Some [''world'']) ! 1) = (0, 960)"
proof -
  let ?cs = "create_word_caption_clips sample_textbbox
      [sample_word ''hello'' 0 0.5, sample_word ''world'' 0.5 1.2] (1080, 1920) (Some [''world''])"
  have h1: "(0::int) \<le> 1920" and h2: "(1920::int) < 2 ^ 53" by simp_all
  from caption_position [OF h1 h2, of sample_textbbox
      "[sample_word ''hello'' 0 0.5, sample_word ''world'' 0.5 1.2]" 1080 "Some [''world'']"]
  have "\<forall>c\<in>set ?cs. clip_pos c = (0, \<lfloor>of_int 1920 * (0.5::rat)\<rfloor>)"
    by blast
  moreover have "?cs ! 1 \<in> set ?cs"
    by (simp add: create_word_caption_clips_map)
  ultimately have "clip_pos (?cs ! 1) = (0, \<lfloor>of_int 1920 * (0.5::rat)\<rfloor>)"
    by blast
  then show ?thesis by simp
qed

section \<open>Words with no duration\<close>

text \<open>
  The layout has no filter: a word whose end is not after its start still gets its clip.
  Here a word from 2.0 to 2.0 yields a clip of duration 0.
\<close>

theorem degenerate_word_emitted_counterexample:
  "wd_end (sample_word ''x'' 2 2) \<le> wd_start (sample_word ''x'' 2 2) \<and>
   map clip_duration
     (create_word_caption_clips sample_textbbox [sample_word ''x'' 2 2] (1080, 1920) None) = [0]"
  by (simp add: create_word_caption_clips_map sample_word_def)

text \<open>
  C1, as the code has it. For every word sequence the layout returns one clip per word
  and drops none: a word with \<open>end \<le> start\<close> yields the clip at its index, starting at
  the word's start and lasting \<open>end - start\<close>. The layout is a total function of its
  input, so such a word raises nothing in it.
\<close>

theorem degenerate_words_kept:
  fixes ws :: "('t::{minus,ord}) word_data list"
  shows "length (create_word_caption_clips tb ws sz hw) = length ws \<and>
         (\<forall>i<length ws. wd_end (ws ! i) \<le> wd_start (ws ! i) \<longrightarrow>
            clip_start (create_word_caption_clips tb ws sz hw ! i) = wd_start (ws ! i) \<and>
            clip_duration (create_word_caption_clips tb ws sz hw ! i)
              = wd_end (ws ! i) - wd_start (ws ! i))"
  by (cases sz) (simp add: create_word_caption_clips_map)

theorem degenerate_words_kept_witness:
  "wd_end (sample_word ''x'' 2 2) \<le> wd_start (sample_word ''x'' 2 2) \<and>
   length (create_word_caption_clips sample_textbbox
             [sample_word ''a'' 0 1, sample_word ''x'' 2 2] (1080, 1920) None) = 2 \<and>
   clip_start (create_word_caption_clips sample_textbbox
             [sample_word ''a'' 0 1, sample_word ''x'' 2 2] (1080, 1920) None ! 1) = 2 \<and>
   clip_duration (create_word_caption_clips sample_textbbox
             [sample_word ''a'' 0 1, sample_word ''x'' 2 2] (1080, 1920) None ! 1) = 0"
proof -
  let ?ws = "[sample_word ''a'' 0 1, sample_word ''x'' 2 2]"
  let ?cs = "create_word_caption_clips sample_textbbox ?ws (1080, 1920) None"
  have deg: "wd_end (sample_word ''x'' 2 2) \<le> wd_start (sample_word ''x'' 2 2)"
    by (simp add: sample_word_def)
  note inst = degenerate_words_kept [of sample_textbbox ?ws "(1080, 1920)" None]
  from inst have len: "length ?cs = length ?ws" ..
  from inst have "\<forall>i<length ?ws. wd_end (?ws ! i) \<le> wd_start (?ws ! i) \<longrightarrow>
      clip_start (?cs ! i) = wd_start (?ws ! i) \<and>
      clip_duration (?cs ! i) = wd_end (?ws ! i) - wd_start (?ws ! i)" ..
  moreover have "1 < length ?ws" by simp
  moreover have "wd_end (?ws ! 1) \<le> wd_start (?ws ! 1)"
    using deg by simp
  ultimately have "clip_start (?cs ! 1) = wd_start (?ws ! 1) \<and>
      clip_duration (?cs ! 1) = wd_end (?ws ! 1) - wd_start (?ws ! 1)"
    by blast
  then have "clip_start (?cs ! 1) = 2 \<and> clip_duration (?cs ! 1) = 0"
    by (simp add: sample_word_def)
  with deg len show ?thesis by simp
qed

section \<open>Rendering of one word\<close>

lemma fold_snoc_filter:
  "fold (\<lambda>b acc. if P b then acc @ [f b] else acc) ys acc = acc @ map f (filter P ys)"
  by (induction ys arbitrary: acc) simp_all

lemma fold_fold_snoc_product:
  "fold (\<lambda>a acc. fold (\<lambda>b acc. if P a b then acc @ [f a b] else acc) ys acc) xs acc =
     acc @ map (\<lambda>(a, b). f a b) (filter (\<lambda>(a, b). P a b) (List.product xs ys))"
proof (induction xs arbitrary: acc)
  case Nil
  show ?case by simp
next
  case (Cons a xs)
  have "map (\<lambda>(a, b). f a b) (filter (\<lambda>(a, b). P a b) (map (Pair a) ys)) =
        map (f a) (filter (P a) ys)"
    by (simp add: filter_map o_def)
  with Cons show ?case
    by (simp add: fold_snoc_filter)
qed

lemma draw_stroke_offsets:
  "draw_stroke x y txt draws =
     draws @ map (\<lambda>(dx, dy). \<lparr>dt_xy = (x + dx, y + dy), dt_text = txt, dt_fill = (0, 0, 0, 255)\<rparr>)
               stroke_offsets"
  unfolding draw_stroke_def stroke_offsets_def by (rule fold_fold_snoc_product)

lemma set_stroke_offsets:
  "set stroke_offsets = {(dx, dy). \<bar>dx\<bar> \<le> 4 \<and> \<bar>dy\<bar> \<le> 4 \<and> \<not> (dx = 0 \<and> dy = 0)}"
proof -
  have "set stroke_offsets =
          {p \<in> {- 4..4} \<times> {- 4..4}. case p of (dx, dy) \<Rightarrow> dx \<noteq> 0 \<or> dy \<noteq> 0}"
    unfolding stroke_offsets_def stroke_width_def
    by (simp only: set_filter set_product set_upto)
  also have "\<dots> = {(dx, dy). \<bar>dx\<bar> \<le> 4 \<and> \<bar>dy\<bar> \<le> 4 \<and> \<not> (dx = 0 \<and> dy = 0)}"
    by auto
  finally show ?thesis .
qed

lemma length_stroke_offsets: "length stroke_offsets = 80"
  by code_simp

lemma hd_stroke_offsets: "stroke_offsets \<noteq> [] \<and> hd stroke_offsets = (- 4, - 4)"
  by code_simp

lemma create_text_image_draws:
  assumes "tb (upper txt) fs = (b0, b1, b2, b3)"
  shows "img_draws (create_text_image tb txt fs w h hl) =
           map (\<lambda>(dx, dy). \<lparr>dt_xy = ((w - (b2 - b0)) div 2 + dx, (h - (b3 - b1)) div 2 + dy),
                             dt_text = upper txt, dt_fill = (0, 0, 0, 255)\<rparr>) stroke_offsets
           @ [\<lparr>dt_xy = ((w - (b2 - b0)) div 2, (h - (b3 - b1)) div 2), dt_text = upper txt,
               dt_fill = (if hl then (255, 255, 0, 255) else (250, 253, 7, 255))\<rparr>]"
  using assms by (simp add: create_text_image_def Let_def draw_stroke_offsets)

lemma clip_img_word_clip:
  "clip_img (word_clip tb fs w y hs wd) =
     create_text_image tb (wd_text wd) fs w (py_int (of_int fs * 1.5)) (is_highlight hs wd)"
  by (simp add: word_clip_def Let_def)

lemma font_size_1080: "font_size_of 1080 = 112"
  by (simp add: font_size_of_div)

lemma rendering_samples:
  "upper ''hi'' = ''HI''" "strip (upper ''hi'') = ''HI''"
  "upper [CHR 0xE9] = [CHR 0xC9]" "strip (upper [CHR 0xE9]) = [CHR 0xC9]"
  "strip ''HI'' = ''HI''" "strip [CHR 0xC9] = [CHR 0xC9]"
  "upper_representable ''hi''" "upper_representable [CHR 0xE9]"
  by code_simp+

text \<open>
  C8. Take the clip of word \<open>i\<close>, whose text has its uppercase form within the code
  points of the model, and let \<open>(b0, b1, b2, b3)\<close> be the measured box of the uppercased
  text at the font size of the run. The image of the clip is drawn by these calls, in this
  order: the uppercased text of the word in black (0, 0, 0, 255) at the centred position
  shifted by each offset of the outline, then the uppercased text at the centred position
  in (255, 255, 0, 255) when the word is highlighted and in (250, 253, 7, 255) otherwise.
  The offsets of the outline are exactly the integer pairs \<open>(dx, dy)\<close> with
  \<open>|dx| \<le> 4\<close>, \<open>|dy| \<le> 4\<close>, not both zero.
\<close>

theorem text_image_rendering:
  assumes "i < length ws"
    and "upper_representable (wd_text (ws ! i))"
    and "tb (upper (wd_text (ws ! i))) (font_size_of width) = (b0, b1, b2, b3)"
  shows "img_draws (clip_img (create_word_caption_clips tb ws (width, height) hw ! i)) =
           map (\<lambda>(dx, dy).
                  \<lparr>dt_xy = ((width - (b2 - b0)) div 2 + dx,
                            (py_int (of_int (font_size_of width) * 1.5) - (b3 - b1)) div 2 + dy),
                   dt_text = upper (wd_text (ws ! i)), dt_fill = (0, 0, 0, 255)\<rparr>)
             stroke_offsets
           @ [\<lparr>dt_xy = ((width - (b2 - b0)) div 2,
                        (py_int (of_int (font_size_of width) * 1.5) - (b3 - b1)) div 2),
               dt_text = upper (wd_text (ws ! i)),
               dt_fill = (if strip (upper (wd_text (ws ! i)))
                               \<in> set (map upper (case hw of None \<Rightarrow> [] | Some hws \<Rightarrow> hws))
                          then (255, 255, 0, 255) else (250, 253, 7, 255))\<rparr>] \<and>
         set stroke_offsets = {(dx, dy). \<bar>dx\<bar> \<le> 4 \<and> \<bar>dy\<bar> \<le> 4 \<and> \<not> (dx = 0 \<and> dy = 0)}"
proof
  have "clip_img (create_word_caption_clips tb ws (width, height) hw ! i) =
      create_text_image tb (wd_text (ws ! i)) (font_size_of width) width
        (py_int (of_int (font_size_of width) * 1.5))
        (strip (upper (wd_text (ws ! i)))
           \<in> set (map upper (case hw of None \<Rightarrow> [] | Some hws \<Rightarrow> hws)))"
    using assms(1)
    by (simp add: create_word_caption_clips_map clip_img_word_clip is_highlight_def)
  then show "img_draws (clip_img (create_word_caption_clips tb ws (width, height) hw ! i)) =
           map (\<lambda>(dx, dy).
                  \<lparr>dt_xy = ((width - (b2 - b0)) div 2 + dx,
                            (py_int (of_int (font_size_of width) * 1.5) - (b3 - b1)) div 2 + dy),
                   dt_text = upper (wd_text (ws ! i)), dt_fill = (0, 0, 0, 255)\<rparr>)
             stroke_offsets
           @ [\<lparr>dt_xy = ((width - (b2 - b0)) div 2,
                        (py_int (of_int (font_size_of width) * 1.5) - (b3 - b1)) div 2),
               dt_text = upper (wd_text (ws ! i)),
               dt_fill = (if strip (upper (wd_text (ws ! i)))
                               \<in> set (map upper (case hw of None \<Rightarrow> [] | Some hws \<Rightarrow> hws))
                          then (255, 255, 0, 255) else (250, 253, 7, 255))\<rparr>]"
    by (simp only: create_text_image_draws
        [of tb "wd_text (ws ! i)" "font_size_of width" b0 b1 b2 b3, OF assms(3)])
  show "set stroke_offsets = {(dx, dy). \<bar>dx\<bar> \<le> 4 \<and> \<bar>dy\<bar> \<le> 4 \<and> \<not> (dx = 0 \<and> dy = 0)}"
    by (rule set_stroke_offsets)
qed

theorem text_image_rendering_witness:
  "(0::nat) < length [sample_word ''hi'' 0 1, sample_word [CHR 0xE9] 1 2] \<and>
   (1::nat) < length [sample_word ''hi'' 0 1, sample_word [CHR 0xE9] 1 2] \<and>
   upper_representable ''hi'' \<and> upper_representable [CHR 0xE9] \<and>
   sample_textbbox ''HI'' 112 = (0, 0, 224, 112) \<and>
   sample_textbbox [CHR 0xC9] 112 = (0, 0, 112, 112) \<and>
   length (img_draws (clip_img (create_word_caption_clips sample_textbbox
      [sample_word ''hi'' 0 1, sample_word [CHR 0xE9] 1 2] (1080, 1920) (Some [''hi'']) ! 0)))
     = 81 \<and>
   hd (img_draws (clip_img (create_word_caption_clips sample_textbbox
      [sample_word ''hi'' 0 1, sample_word [CHR 0xE9] 1 2] (1080, 1920) (Some [''hi'']) ! 0)))
     = \<lparr>dt_xy = (424, 24), dt_text = ''HI'', dt_fill = (0, 0, 0, 255)\<rparr> \<and>
   last (img_draws (clip_img (create_word_caption_clips sample_textbbox
      [sample_word ''hi'' 0 1, sample_word [CHR 0xE9] 1 2] (1080, 1920) (Some [''hi'']) ! 0)))
     = \<lparr>dt_xy = (428, 28), dt_text = ''HI'', dt_fill = (255, 255, 0, 255)\<rparr> \<and>
   last (img_draws (clip_img (create_word_caption_clips sample_textbbox
      [sample_word ''hi'' 0 1, sample_word [CHR 0xE9] 1 2] (1080, 1920) (Some [''hi'']) ! 1)))
     = \<lparr>dt_xy = (484, 28), dt_text = [CHR 0xC9], dt_fill = (250, 253, 7, 255)\<rparr>"
proof -
  let ?ws = "[sample_word ''hi'' 0 1, sample_word [CHR 0xE9] 1 2]"
  let ?cs = "create_word_caption_clips sample_textbbox ?ws (1080, 1920) (Some [''hi''])"
  have i0: "(0::nat) < length ?ws" and i1: "(1::nat) < length ?ws"
    by simp_all
  have r0: "upper_representable (wd_text (?ws ! 0))"
    and r1: "upper_representable (wd_text (?ws ! 1))"
    by (simp_all add: sample_word_def rendering_samples)
  have b0: "sample_textbbox ''HI'' 112 = (0, 0, 224, 112)"
    and b1: "sample_textbbox [CHR 0xC9] 112 = (0, 0, 112, 112)"
    by (simp_all add: sample_textbbox_def)
  have t0: "sample_textbbox (upper (wd_text (?ws ! 0))) (font_size_of 1080) = (0, 0, 224, 112)"
    and t1: "sample_textbbox (upper (wd_text (?ws ! 1))) (font_size_of 1080) = (0, 0, 112, 112)"
    by (simp_all add: sample_word_def rendering_samples font_size_1080 sample_textbbox_def)
  from text_image_rendering [of 0 ?ws sample_textbbox 1080 0 0 224 112 1920 "Some [''hi'']",
      OF i0 r0 t0, THEN conjunct1]
  have d0: "img_draws (clip_img (?cs ! 0)) =
      map (\<lambda>(dx, dy). \<lparr>dt_xy = (428 + dx, 28 + dy), dt_text = ''HI'',
                        dt_fill = (0, 0, 0, 255)\<rparr>) stroke_offsets
      @ [\<lparr>dt_xy = (428, 28), dt_text = ''HI'', dt_fill = (255, 255, 0, 255)\<rparr>]"
    by (simp add: font_size_1080 py_int_def sample_word_def rendering_samples)
  from text_image_rendering [of 1 ?ws sample_textbbox 1080 0 0 112 112 1920 "Some [''hi'']",
      OF i1 r1 t1, THEN conjunct1]
  have d1: "img_draws (clip_img (?cs ! 1)) =
      map (\<lambda>(dx, dy). \<lparr>dt_xy = (484 + dx, 28 + dy), dt_text = [CHR 0xC9],
                        dt_fill = (0, 0, 0, 255)\<rparr>) stroke_offsets
      @ [\<lparr>dt_xy = (484, 28), dt_text = [CHR 0xC9], dt_fill = (250, 253, 7, 255)\<rparr>]"
    by (simp add: font_size_1080 py_int_def sample_word_def rendering_samples)
  have "length (img_draws (clip_img (?cs ! 0))) = 81"
    unfolding d0 by (simp add: length_stroke_offsets)
  moreover have "hd (img_draws (clip_img (?cs ! 0)))
      = \<lparr>dt_xy = (424, 24), dt_text = ''HI'', dt_fill = (0, 0, 0, 255)\<rparr>"
    unfolding d0 using hd_stroke_offsets by (simp add: hd_map)
  moreover have "last (img_draws (clip_img (?cs ! 0)))
      = \<lparr>dt_xy = (428, 28), dt_text = ''HI'', dt_fill = (255, 255, 0, 255)\<rparr>"
    unfolding d0 by simp
  moreover have "last (img_draws (clip_img (?cs ! 1)))
      = \<lparr>dt_xy = (484, 28), dt_text = [CHR 0xC9], dt_fill = (250, 253, 7, 255)\<rparr>"
    unfolding d1 by simp
  moreover have "upper_representable ''hi''" "upper_representable [CHR 0xE9]"
    by (rule rendering_samples)+
  ultimately show ?thesis
    using i0 i1 b0 b1 by blast
qed

section \<open>Highlighting\<close>

lemma is_space_letter:
  assumes "(97 \<le> (of_char c :: nat) \<and> (of_char c :: nat) \<le> 122) \<or>
           (224 \<le> (of_char c :: nat) \<and> (of_char c :: nat) \<le> 254)"
  shows "\<not> is_space c" and "\<not> is_space (char_of ((of_char c :: nat) - 32))"
proof -
  show "\<not> is_space c"
    using assms unfolding is_space_def Let_def by linarith
  have "(of_char c :: nat) - 32 < 256"
    using assms by linarith
  then have "(of_char (char_of ((of_char c :: nat) - 32)) :: nat) = of_char c - 32"
    by simp
  then show "\<not> is_space (char_of ((of_char c :: nat) - 32))"
    using assms unfolding is_space_def Let_def by linarith
qed

lemma upper_char_ends:
  "upper_char c \<noteq> [] \<and> is_space (hd (upper_char c)) = is_space c \<and>
   is_space (last (upper_char c)) = is_space c"
proof (cases "(97 \<le> (of_char c :: nat) \<and> (of_char c :: nat) \<le> 122) \<or>
    (224 \<le> (of_char c :: nat) \<and> (of_char c :: nat) \<le> 254 \<and> (of_char c :: nat) \<noteq> 247)")
  case True
  then have "upper_char c = [char_of ((of_char c :: nat) - 32)]"
    unfolding upper_char_def Let_def by (simp only: if_True)
  moreover from True
  have "(97 \<le> (of_char c :: nat) \<and> (of_char c :: nat) \<le> 122) \<or>
        (224 \<le> (of_char c :: nat) \<and> (of_char c :: nat) \<le> 254)"
    by linarith
  note is_space_letter [OF this]
  ultimately show ?thesis
    by simp
next
  case False
  show ?thesis
  proof (cases "(of_char c :: nat) = 223")
    case True
    then have "upper_char c = ''SS''"
      unfolding upper_char_def Let_def by simp
    moreover have "\<not> is_space CHR ''S''"
      by code_simp
    moreover from True have "\<not> is_space c"
      by (simp add: is_space_def)
    ultimately show ?thesis
      by simp
  next
    case n: False
    with False have "upper_char c = [c]"
      unfolding upper_char_def Let_def by (simp only: if_False)
    then show ?thesis
      by simp
  qed
qed

lemma upper_append: "upper (xs @ ys) = upper xs @ upper ys"
  by (simp add: upper_def)

lemma padded_upper: "padded (upper s) = padded s"
proof (cases s rule: rev_cases)
  case Nil
  then show ?thesis
    by (simp add: padded_def upper_def)
next
  case (snoc ys y)
  then have l: "is_space (last (upper s)) = is_space (last s)"
    using upper_char_ends [of y] by (simp add: upper_append upper_def)
  from snoc have "s \<noteq> []"
    by simp
  then obtain x xs where s: "s = x # xs"
    by (meson neq_Nil_conv)
  then have h: "is_space (hd (upper s)) = is_space (hd s)"
    using upper_char_ends [of x] by (simp add: upper_def)
  from s have "upper s \<noteq> []"
    using upper_char_ends [of x] by (simp add: upper_def)
  with l h s show ?thesis
    by (simp add: padded_def)
qed

lemma last_dropWhile: "dropWhile P xs \<noteq> [] \<Longrightarrow> last (dropWhile P xs) = last xs"
  by (induction xs) (auto split: if_splits)

lemma strip_not_padded: "\<not> padded (strip s)"
proof
  assume p: "padded (strip s)"
  define t where "t = dropWhile is_space s"
  define u where "u = dropWhile is_space (rev t)"
  have s: "strip s = rev u"
    by (simp add: strip_def t_def u_def)
  from p s have u: "u \<noteq> []"
    by (simp add: padded_def)
  then have t: "t \<noteq> []"
    by (auto simp: u_def)
  from u have "\<not> is_space (hd u)"
    unfolding u_def by (rule hd_dropWhile)
  then have l: "\<not> is_space (last (strip s))"
    using u by (simp add: s last_rev)
  from u have "last u = last (rev t)"
    unfolding u_def by (rule last_dropWhile)
  then have "hd (strip s) = hd t"
    using u t by (simp add: s hd_rev last_rev)
  moreover from t have "\<not> is_space (hd t)"
    unfolding t_def by (rule hd_dropWhile)
  ultimately have "\<not> is_space (hd (strip s))"
    by simp
  with l p show False
    by (simp add: padded_def)
qed

lemma padded_never_stripped: "padded e \<Longrightarrow> strip t \<noteq> upper e"
  using strip_not_padded [of t] padded_upper [of e] by auto

lemma fill_color_word_clip:
  "fill_color (clip_img (word_clip tb fs w y hs wd)) =
     (if is_highlight hs wd then (255, 255, 0, 255) else (250, 253, 7, 255))"
  by (simp add: fill_color_def word_clip_def create_text_image_def Let_def split: prod.splits)

lemma is_highlight_upper:
  "is_highlight (map upper hws) wd \<longleftrightarrow> (\<exists>e\<in>set hws. strip (upper (wd_text wd)) = upper e)"
  by (auto simp: is_highlight_def)

lemma highlight_samples:
  "strip (upper ''Amazing'') = ''AMAZING''" "strip (upper ''amazingly'') = ''AMAZINGLY''"
  "strip (upper ('' Amazing'' @ [CHR 0xA0])) = ''AMAZING''"
  "strip (upper [CHR 0xC9]) = [CHR 0xC9]"
  "upper ''amazing'' = ''AMAZING''" "upper [CHR 0xE9] = [CHR 0xC9]"
  "upper_representable ''Amazing''" "upper_representable ''amazingly''"
  "upper_representable ('' Amazing'' @ [CHR 0xA0])" "upper_representable [CHR 0xC9]"
  "upper_representable ''amazing''" "upper_representable [CHR 0xE9]"
  by code_simp+

text \<open>
  C3. With a highlight list \<open>hws\<close>, and the word and the entries having their uppercase
  forms within the code points of the model, the clip of word \<open>i\<close> is filled in the
  highlight colour exactly when the word's text, uppercased and then stripped, is equal as
  a whole string to the uppercased form of some entry of \<open>hws\<close>; otherwise it is filled
  in the normal colour. With the list ["amazing"] the word "Amazing" is highlighted, with
  or without whitespace around it, and "amazingly" is not.
\<close>

theorem highlight_exact_match:
  assumes "i < length ws"
    and "upper_representable (wd_text (ws ! i))"
    and "\<forall>e \<in> set hws. upper_representable e"
  shows "(fill_color (clip_img (create_word_caption_clips tb ws sz (Some hws) ! i))
            = (255, 255, 0, 255)
          \<longleftrightarrow> (\<exists>e\<in>set hws. strip (upper (wd_text (ws ! i))) = upper e)) \<and>
         (fill_color (clip_img (create_word_caption_clips tb ws sz (Some hws) ! i))
            \<noteq> (255, 255, 0, 255)
          \<longrightarrow> fill_color (clip_img (create_word_caption_clips tb ws sz (Some hws) ! i))
            = (250, 253, 7, 255))"
  using assms(1)
  by (cases sz) (simp add: create_word_caption_clips_map fill_color_word_clip is_highlight_upper)

theorem highlight_exact_match_witness:
  "(3::nat) < length [sample_word ''Amazing'' 0 1, sample_word ''amazingly'' 1 2,
       sample_word ('' Amazing'' @ [CHR 0xA0]) 2 3, sample_word [CHR 0xC9] 3 4] \<and>
   upper_representable ''Amazing'' \<and> upper_representable ''amazingly'' \<and>
   upper_representable ('' Amazing'' @ [CHR 0xA0]) \<and> upper_representable [CHR 0xC9] \<and>
   upper_representable ''amazing'' \<and> upper_representable [CHR 0xE9] \<and>
   fill_color (clip_img (create_word_caption_clips sample_textbbox
       [sample_word ''Amazing'' 0 1, sample_word ''amazingly'' 1 2,
        sample_word ('' Amazing'' @ [CHR 0xA0]) 2 3, sample_word [CHR 0xC9] 3 4] (1080, 1920)
       (Some [''amazing'', [CHR 0xE9]]) ! 0)) = (255, 255, 0, 255) \<and>
   fill_color (clip_img (create_word_caption_clips sample_textbbox
       [sample_word ''Amazing'' 0 1, sample_word ''amazingly'' 1 2,
        sample_word ('' Amazing'' @ [CHR 0xA0]) 2 3, sample_word [CHR 0xC9] 3 4] (1080, 1920)
       (Some [''amazing'', [CHR 0xE9]]) ! 1)) = (250, 253, 7, 255) \<and>
   fill_color (clip_img (create_word_caption_clips sample_textbbox
       [sample_word ''Amazing'' 0 1, sample_word ''amazingly'' 1 2,
        sample_word ('' Amazing'' @ [CHR 0xA0]) 2 3, sample_word [CHR 0xC9] 3 4] (1080, 1920)
       (Some [''amazing'', [CHR 0xE9]]) ! 2)) = (255, 255, 0, 255) \<and>
   fill_color (clip_img (create_word_caption_clips sample_textbbox
       [sample_word ''Amazing'' 0 1, sample_word ''amazingly'' 1 2,
        sample_word ('' Amazing'' @ [CHR 0xA0]) 2 3, sample_word [CHR 0xC9] 3 4] (1080, 1920)
       (Some [''amazing'', [CHR 0xE9]]) ! 3)) = (255, 255, 0, 255)"
proof -
  let ?ws = "[sample_word ''Amazing'' 0 1, sample_word ''amazingly'' 1 2,
       sample_word ('' Amazing'' @ [CHR 0xA0]) 2 3, sample_word [CHR 0xC9] 3 4]"
  let ?hws = "[''amazing'', [CHR 0xE9]]"
  let ?cs = "create_word_caption_clips sample_textbbox ?ws (1080, 1920) (Some ?hws)"
  have i: "(0::nat) < length ?ws" "(1::nat) < length ?ws" "(2::nat) < length ?ws"
    "(3::nat) < length ?ws"
    by simp_all
  have t: "wd_text (?ws ! 0) = ''Amazing''" "wd_text (?ws ! 1) = ''amazingly''"
    "wd_text (?ws ! 2) = '' Amazing'' @ [CHR 0xA0]" "wd_text (?ws ! 3) = [CHR 0xC9]"
    by (simp_all add: sample_word_def)
  have r: "upper_representable (wd_text (?ws ! 0))" "upper_representable (wd_text (?ws ! 1))"
    "upper_representable (wd_text (?ws ! 2))" "upper_representable (wd_text (?ws ! 3))"
    unfolding t by (rule highlight_samples)+
  have e: "\<forall>e \<in> set ?hws. upper_representable e"
    using highlight_samples(11,12) by simp
  have "fill_color (clip_img (?cs ! 0)) = (255, 255, 0, 255)"
    using highlight_exact_match [OF i(1) r(1) e, of sample_textbbox "(1080, 1920)"]
      highlight_samples(1-6)
    unfolding t by simp
  moreover have "fill_color (clip_img (?cs ! 1)) = (250, 253, 7, 255)"
    using highlight_exact_match [OF i(2) r(2) e, of sample_textbbox "(1080, 1920)"]
      highlight_samples(1-6)
    unfolding t by simp
  moreover have "fill_color (clip_img (?cs ! 2)) = (255, 255, 0, 255)"
    using highlight_exact_match [OF i(3) r(3) e, of sample_textbbox "(1080, 1920)"]
      highlight_samples(1-6)
    unfolding t by simp
  moreover have "fill_color (clip_img (?cs ! 3)) = (255, 255, 0, 255)"
    using highlight_exact_match [OF i(4) r(4) e, of sample_textbbox "(1080, 1920)"]
      highlight_samples(1-6)
    unfolding t by simp
  ultimately show ?thesis
    using i(4) highlight_samples(7-12) by blast
qed

lemma is_highlight_without_padded:
  assumes "padded e"
  shows "is_highlight (map upper (hs1 @ e # hs2)) wd = is_highlight (map upper (hs1 @ hs2)) wd"
  using padded_never_stripped [OF assms, of "upper (wd_text wd)"]
  by (auto simp: is_highlight_def)

lemma word_clip_cong_highlight:
  "is_highlight hs wd = is_highlight hs' wd \<Longrightarrow>
     word_clip tb fs w y hs wd = word_clip tb fs w y hs' wd"
  by (simp add: word_clip_def)

lemma padded_wow: "padded '' wow ''"
  by code_simp

text \<open>
  C10. The entries of the highlight list are uppercased and not stripped, the words are
  stripped. So an entry that starts or ends with whitespace is equal to no word's
  uppercased, stripped text; removing it from the list leaves the clips of every word
  sequence as they are; and a list holding only that entry highlights no clip.
\<close>

theorem padded_highlight_entry_matches_nothing:
  assumes "padded e"
  shows "(\<forall>wd \<in> set ws. strip (upper (wd_text wd)) \<noteq> upper e) \<and>
         create_word_caption_clips tb ws sz (Some (hs1 @ e # hs2))
           = create_word_caption_clips tb ws sz (Some (hs1 @ hs2)) \<and>
         (\<forall>c \<in> set (create_word_caption_clips tb ws sz (Some [e])).
            fill_color (clip_img c) = (250, 253, 7, 255))"
proof (intro conjI)
  show "\<forall>wd \<in> set ws. strip (upper (wd_text wd)) \<noteq> upper e"
    using padded_never_stripped [OF assms] by blast
  show "create_word_caption_clips tb ws sz (Some (hs1 @ e # hs2))
           = create_word_caption_clips tb ws sz (Some (hs1 @ hs2))"
    by (cases sz)
      (simp add: create_word_caption_clips_map
         word_clip_cong_highlight [OF is_highlight_without_padded [OF assms]]
       del: map_append)
  have "\<not> is_highlight (map upper [e]) wd" for wd :: "'a word_data"
    using padded_never_stripped [OF assms, of "upper (wd_text wd)"]
    by (simp add: is_highlight_def)
  then show "\<forall>c \<in> set (create_word_caption_clips tb ws sz (Some [e])).
            fill_color (clip_img c) = (250, 253, 7, 255)"
    by (cases sz) (auto simp: create_word_caption_clips_map fill_color_word_clip)
qed

theorem padded_highlight_entry_matches_nothing_witness:
  "padded '' wow '' \<and>
   strip (upper (wd_text (sample_word ''wow'' 0 1))) \<noteq> upper '' wow '' \<and>
   create_word_caption_clips sample_textbbox [sample_word ''wow'' 0 1] (1080, 1920)
       (Some [''amazing'', '' wow ''])
     = create_word_caption_clips sample_textbbox [sample_word ''wow'' 0 1] (1080, 1920)
       (Some [''amazing'']) \<and>
   fill_color (clip_img (create_word_caption_clips sample_textbbox [sample_word ''wow'' 0 1]
       (1080, 1920) (Some ['' wow '']) ! 0)) = (250, 253, 7, 255)"
proof -
  let ?ws = "[sample_word ''wow'' 0 1]"
  note inst = padded_highlight_entry_matches_nothing [OF padded_wow, of ?ws sample_textbbox
      "(1080, 1920)" "[''amazing'']" "[]"]
  from inst have a: "\<forall>wd \<in> set ?ws. strip (upper (wd_text wd)) \<noteq> upper '' wow ''"
    by (rule conjunct1)
  from inst have b: "create_word_caption_clips sample_textbbox ?ws (1080, 1920)
       (Some ([''amazing''] @ '' wow '' # []))
     = create_word_caption_clips sample_textbbox ?ws (1080, 1920) (Some ([''amazing''] @ []))"
    by blast
  from inst have c: "\<forall>c \<in> set (create_word_caption_clips sample_textbbox ?ws (1080, 1920)
       (Some ['' wow ''])). fill_color (clip_img c) = (250, 253, 7, 255)"
    by blast
  have "create_word_caption_clips sample_textbbox ?ws (1080, 1920) (Some ['' wow '']) ! 0
      \<in> set (create_word_caption_clips sample_textbbox ?ws (1080, 1920) (Some ['' wow '']))"
    by (simp add: create_word_caption_clips_map)
  with c have "fill_color (clip_img (create_word_caption_clips sample_textbbox ?ws
       (1080, 1920) (Some ['' wow '']) ! 0)) = (250, 253, 7, 255)"
    by blast
  moreover from a have "strip (upper (wd_text (sample_word ''wow'' 0 1))) \<noteq> upper '' wow ''"
    by simp
  moreover from b have "create_word_caption_clips sample_textbbox ?ws (1080, 1920)
       (Some [''amazing'', '' wow ''])
     = create_word_caption_clips sample_textbbox ?ws (1080, 1920) (Some [''amazing''])"
    by simp
  ultimately show ?thesis using padded_wow by blast
qed

section \<open>Transcript\<close>

lemma append_word_eq:
  "append_word =
     (\<lambda>acc w. acc @ [\<lparr>wd_text = strip (ww_word w), wd_start = ww_start w, wd_end = ww_end w\<rparr>])"
  by (simp add: fun_eq_iff append_word_def)

lemma foldl_append_word:
  "foldl append_word acc ws =
     acc @ map (\<lambda>w. \<lparr>wd_text = strip (ww_word w), wd_start = ww_start w, wd_end = ww_end w\<rparr>) ws"
  unfolding append_word_eq by (rule foldl_snoc_map)

lemma foldl_segments:
  "foldl (\<lambda>word_segments segment.
            case seg_words segment of
              None \<Rightarrow> word_segments
            | Some ws \<Rightarrow> foldl append_word word_segments ws) acc segs =
     acc @ concat (map (\<lambda>segment. case seg_words segment of
                                      None \<Rightarrow> []
                                    | Some ws \<Rightarrow>
                                        map (\<lambda>w. \<lparr>wd_text = strip (ww_word w),
                                                   wd_start = ww_start w, wd_end = ww_end w\<rparr>) ws)
                       segs)"
  by (induction segs arbitrary: acc) (simp_all add: foldl_append_word split: option.splits)

text \<open>
  C6. The words returned for a recogniser result are the words of its segments, segment
  after segment and word after word, each with its text stripped and its times unchanged;
  a segment without the key "words" adds nothing. A result with no segments, or whose
  segments have no words, gives the empty list, and a recogniser that returns gives these
  words and no error.
\<close>

theorem transcript_flattened:
  "collect_words result =
     concat (map (\<lambda>segment. case seg_words segment of
                               None \<Rightarrow> []
                             | Some ws \<Rightarrow>
                                 map (\<lambda>w. \<lparr>wd_text = strip (ww_word w),
                                            wd_start = ww_start w, wd_end = ww_end w\<rparr>) ws)
              (res_segments result)) \<and>
   (res_segments result = [] \<longrightarrow> collect_words result = []) \<and>
   ((\<forall>segment \<in> set (res_segments result).
        seg_words segment = None \<or> seg_words segment = Some []) \<longrightarrow>
      collect_words result = []) \<and>
   (whisper video_path = Inr result \<longrightarrow>
      transcribe_with_word_timestamps whisper video_path = Inr (collect_words result))"
proof (intro conjI impI)
  show flat: "collect_words result =
     concat (map (\<lambda>segment. case seg_words segment of
                               None \<Rightarrow> []
                             | Some ws \<Rightarrow>
                                 map (\<lambda>w. \<lparr>wd_text = strip (ww_word w),
                                            wd_start = ww_start w, wd_end = ww_end w\<rparr>) ws)
              (res_segments result))"
    by (simp add: collect_words_def foldl_segments)
  show "collect_words result = []" if "res_segments result = []"
    using that by (simp add: collect_words_def)
  show "collect_words result = []"
    if "\<forall>segment \<in> set (res_segments result).
          seg_words segment = None \<or> seg_words segment = Some []"
    unfolding flat using that by (auto split: option.splits)
  show "transcribe_with_word_timestamps whisper video_path = Inr (collect_words result)"
    if "whisper video_path = Inr result"
    using that by (simp add: transcribe_with_word_timestamps_def)
qed

lemma sample_strips:
  "strip '' hello'' = ''hello''" "strip '' world '' = ''world''"
  "strip (CHR 0xA0 # ''hi'' @ [CHR 0x85]) = ''hi''"
  by code_simp+

theorem transcript_flattened_witness:
  "collect_words sample_result =
     [sample_word ''hello'' 0 0.5, sample_word ''world'' 0.5 1.2, sample_word ''hi'' 1.2 1.5] \<and>
   collect_words \<lparr>res_text = '''', res_segments = ([] :: rat whisper_segment list)\<rparr> = []"
proof -
  have "collect_words sample_result =
     [sample_word ''hello'' 0 0.5, sample_word ''world'' 0.5 1.2, sample_word ''hi'' 1.2 1.5]"
    using transcript_flattened [of sample_result, THEN conjunct1] sample_strips
    by (simp add: sample_result_def sample_word_def)
  moreover have
    "collect_words \<lparr>res_text = '''', res_segments = ([] :: rat whisper_segment list)\<rparr> = []"
    using transcript_flattened [of "\<lparr>res_text = '''', res_segments = ([] :: rat whisper_segment list)\<rparr>"]
    by simp
  ultimately show ?thesis ..
qed

section \<open>Grouping into lines\<close>

lemma group_steps:
  "k + length xs = n \<Longrightarrow>
     foldl (group_step n) (ls, []) (enumerate k xs) = (ls @ lines_of_two xs, [])"
proof (induction xs arbitrary: ls k rule: lines_of_two.induct)
  case 1
  show ?case by simp
next
  case (2 x)
  then show ?case
    by (auto simp: group_step_def words_per_line_def)
next
  case (3 x y zs)
  from 3(2) have "Suc (Suc k) + length zs = n"
    by simp
  from 3(1) [OF this, of "ls @ [[x, y]]"] 3(2) show ?case
    by (auto simp: group_step_def words_per_line_def)
qed

lemma group_lines_eq: "group_lines ws = (lines_of_two ws, [])"
  unfolding group_lines_def using group_steps [of 0 ws "length ws" "[]"] by simp

text \<open>
  C9. The grouping loop collects the words into lines of two consecutive words, the last
  line holding a single word when their number is odd, and leaves no pending line. The
  clips returned do not depend on it: they are the clips of the layout written without
  the grouping step.
\<close>

theorem grouping_unobservable:
  "create_word_caption_clips tb ws sz hw = layout_without_grouping tb ws sz hw \<and>
   ll_lines (create_word_caption_clips_locals tb ws sz hw) = lines_of_two ws \<and>
   ll_current_line (create_word_caption_clips_locals tb ws sz hw) = []"
  by (cases sz)
    (simp add: create_word_caption_clips_def create_word_caption_clips_locals_def
       layout_without_grouping_def group_lines_eq Let_def)

theorem grouping_unobservable_witness:
  "create_word_caption_clips sample_textbbox
      [sample_word ''a'' 0 1, sample_word ''b'' 1 2, sample_word ''c'' 2 3] (1080, 1920) None
     = layout_without_grouping sample_textbbox
      [sample_word ''a'' 0 1, sample_word ''b'' 1 2, sample_word ''c'' 2 3] (1080, 1920) None \<and>
   ll_lines (create_word_caption_clips_locals sample_textbbox
      [sample_word ''a'' 0 1, sample_word ''b'' 1 2, sample_word ''c'' 2 3] (1080, 1920) None)
     = [[sample_word ''a'' 0 1, sample_word ''b'' 1 2], [sample_word ''c'' 2 3]]"
  using grouping_unobservable [of sample_textbbox
      "[sample_word ''a'' 0 1, sample_word ''b'' 1 2, sample_word ''c'' 2 3]" "(1080, 1920)" None]
  by simp

section \<open>Failures at the top level\<close>

text \<open>
  Exceptions are the subclasses of \<open>Exception\<close>, which the two \<open>except\<close> clauses
  catch. When transcription fails, \<open>main\<close> catches the error and returns, and the process
  ends with status 0.
\<close>

theorem failure_exits_zero_counterexample:
  "main_try (program_stages sample_failing_whisper sample_video_file_clip sample_textbbox
       sample_compose) = Inl (OtherException ''Failed to load audio'') \<and>
   exit_status (main (program_stages sample_failing_whisper sample_video_file_clip
       sample_textbbox sample_compose)) = 0"
  by (simp add: main_def main_try_def program_stages_def transcribe_with_word_timestamps_def
      sample_failing_whisper_def)

text \<open>
  C4, as the code has it. An exception raised by transcription, by reading the video
  size, by building the clips or by composing leaves the \<open>try\<close> block as that exception;
  \<open>main\<close> then prints one line for it, the not-found line for a \<open>FileNotFoundError\<close> and
  \<open>Error:\<close> followed by the message for any other, and returns. The process ends with
  status 0 in every case.
\<close>

theorem failures_reported:
  "(\<forall>e. main_try S = Inl e \<longrightarrow> main S = \<lparr>printed = [error_line e], exit_status = 0\<rparr>) \<and>
   (\<forall>e. st_transcribe S input_video = Inl e \<longrightarrow> main_try S = Inl e) \<and>
   (\<forall>e word_segments. st_transcribe S input_video = Inr word_segments \<longrightarrow>
      st_video_size S input_video = Inl e \<longrightarrow> main_try S = Inl e) \<and>
   (\<forall>e word_segments video_size. st_transcribe S input_video = Inr word_segments \<longrightarrow>
      st_video_size S input_video = Inr video_size \<longrightarrow>
      st_create_clips S word_segments video_size (Some main_highlight_words) = Inl e \<longrightarrow>
      main_try S = Inl e) \<and>
   (\<forall>e word_segments video_size caption_clips.
      st_transcribe S input_video = Inr word_segments \<longrightarrow>
      st_video_size S input_video = Inr video_size \<longrightarrow>
      st_create_clips S word_segments video_size (Some main_highlight_words) = Inr caption_clips \<longrightarrow>
      st_compose S input_video caption_clips output_video = Inl e \<longrightarrow>
      main_try S = Inl e) \<and>
   error_line FileNotFoundError = ''Error: Input video '' @ [CHR 0x27] @ ''stitched_output.mp4''
      @ [CHR 0x27] @ '' not found!'' \<and>
   (\<forall>msg. error_line (OtherException msg) = ''Error: '' @ msg) \<and>
   exit_status (main S) = 0"
  by (auto simp: main_def main_try_def error_line_def input_video_def split: sum.splits)

theorem failures_reported_witness:
  "main (program_stages sample_missing_whisper sample_video_file_clip sample_textbbox
       sample_compose)
     = \<lparr>printed = [''Error: Input video '' @ [CHR 0x27] @ ''stitched_output.mp4''
          @ [CHR 0x27] @ '' not found!''], exit_status = 0\<rparr> \<and>
   main (program_stages sample_whisper sample_video_file_clip sample_textbbox
       sample_failing_compose)
     = \<lparr>printed = [''Error: No space left on device''], exit_status = 0\<rparr>"
proof -
  let ?S = "program_stages sample_missing_whisper sample_video_file_clip sample_textbbox
       sample_compose"
  let ?T = "program_stages sample_whisper sample_video_file_clip sample_textbbox
       sample_failing_compose"
  have "st_transcribe ?S input_video = Inl FileNotFoundError"
    by (simp add: program_stages_def transcribe_with_word_timestamps_def
        sample_missing_whisper_def)
  with failures_reported [of ?S] have "main_try ?S = Inl FileNotFoundError"
    by blast
  with failures_reported [of ?S]
  have "main ?S = \<lparr>printed = [error_line FileNotFoundError], exit_status = 0\<rparr>"
    by blast
  moreover from failures_reported [of ?S]
  have "error_line FileNotFoundError = ''Error: Input video '' @ [CHR 0x27]
      @ ''stitched_output.mp4'' @ [CHR 0x27] @ '' not found!''"
    by blast
  ultimately have s: "main ?S = \<lparr>printed = [''Error: Input video '' @ [CHR 0x27]
      @ ''stitched_output.mp4'' @ [CHR 0x27] @ '' not found!''], exit_status = 0\<rparr>"
    by simp
  have "st_transcribe ?T input_video = Inr (collect_words sample_result)"
    and "st_video_size ?T input_video = Inr (1080, 1920)"
    and "st_create_clips ?T (collect_words sample_result) (1080, 1920) (Some main_highlight_words)
      = Inr (create_word_caption_clips sample_textbbox (collect_words sample_result)
               (1080, 1920) (Some main_highlight_words))"
    and "st_compose ?T input_video
           (create_word_caption_clips sample_textbbox (collect_words sample_result)
               (1080, 1920) (Some main_highlight_words)) output_video
      = Inl (OtherException ''No space left on device'')"
    by (simp_all add: program_stages_def transcribe_with_word_timestamps_def
        sample_whisper_def sample_video_file_clip_def sample_failing_compose_def)
  with failures_reported [of ?T]
  have "main_try ?T = Inl (OtherException ''No space left on device'')"
    by blast
  with failures_reported [of ?T]
  have "main ?T = \<lparr>printed = [error_line (OtherException ''No space left on device'')],
      exit_status = 0\<rparr>"
    by blast
  moreover from failures_reported [of ?T]
  have "error_line (OtherException ''No space left on device'')
      = ''Error: '' @ ''No space left on device''"
    by blast
  ultimately have "main ?T = \<lparr>printed = [''Error: No space left on device''], exit_status = 0\<rparr>"
    by simp
  with s show ?thesis ..
qed

end
